theory Spec2Isabelle
  imports Main "HOL-Library.Word" "HOL-Library.AList"
begin

unbundle bit_operations_syntax

section \<open>Package bacnet (types.go)\<close>

subsection \<open>Errors\<close>

text \<open>
  Go functions report failure through an extra \<open>error\<close> result; a failed unchecked type
  assertion \<open>x.(*T)\<close> panics. Both are values of the model: a fallible function returns
  \<open>error + 'a\<close> with \<open>Inl\<close> for the failure.
\<close>

record ApduError =
  Class :: nat
  Code :: nat

datatype error =
    errorString string        \<comment> \<open>\<open>errors.New(msg)\<close>\<close>
  | UnexpectedPayloadType     \<comment> \<open>\<open>fmt.Errorf("unexpected payload type %T", ...)\<close>\<close>
  | ProtocolError ApduError   \<comment> \<open>the \<open>ApduError\<close> payload returned as the error\<close>
  | TransportError            \<comment> \<open>error of \<open>MarshalBinary\<close> or \<open>WriteToUDP\<close>\<close>
  | ContextError              \<comment> \<open>\<open>ctx.Err()\<close>\<close>
  | TypeAssertionPanic        \<comment> \<open>run-time panic of \<open>x.(*T)\<close> on another dynamic type\<close>

subsection \<open>Object identifiers\<close>

text \<open>\<open>type ObjectType uint16\<close>, \<open>type ObjectInstance uint32\<close>.\<close>

type_synonym ObjectType = "16 word"
type_synonym ObjectInstance = "32 word"

definition MaxInstance :: "32 word" where
  "MaxInstance = 0x3FFFFF"

definition instanceBits :: nat where
  "instanceBits = 22"

definition maxObjectType :: "16 word" where
  "maxObjectType = 0x400"

definition Proprietarymax :: ObjectType where
  "Proprietarymax = 0x3ff"

record ObjectID =
  Type :: ObjectType
  Instance :: ObjectInstance

text \<open>
  \<open>func (o ObjectID) Encode() (uint32, error)\<close>: the two guards in the order of the
  source, then \<open>uint32(o.Type)<<instanceBits | uint32(o.Instance)\<close>; the shift is on
  32 bits and drops what leaves them.
\<close>

definition Encode :: "ObjectID \<Rightarrow> error + 32 word" where
  "Encode oid =
     (if Instance oid > MaxInstance
        then Inl (errorString ''invalid ObjectID: instance too high'')
      else if Type oid > maxObjectType
        then Inl (errorString ''invalid ObjectID: objectType too high too high'')
      else Inr (push_bit instanceBits (ucast (Type oid) :: 32 word) OR Instance oid))"

text \<open>
  \<open>func ObjectIDFromUint32(v uint32) ObjectID\<close>: \<open>ObjectType(v >> instanceBits)\<close> converts
  to 16 bits, \<open>v & MaxInstance\<close> keeps the low 22 bits.
\<close>

definition ObjectIDFromUint32 :: "32 word \<Rightarrow> ObjectID" where
  "ObjectIDFromUint32 v =
     \<lparr>Type = ucast (drop_bit instanceBits v), Instance = v AND MaxInstance\<rparr>"

subsection \<open>Devices and addresses\<close>

type_synonym byte = "8 word"

text \<open>\<open>type SegmentationSupport byte\<close> with its four named constants.\<close>

type_synonym SegmentationSupport = byte

definition SegmentationSupportBoth :: SegmentationSupport where
  "SegmentationSupportBoth = 0x00"

definition SegmentationSupportTransmit :: SegmentationSupport where
  "SegmentationSupportTransmit = 0x01"

definition SegmentationSupportReceive :: SegmentationSupport where
  "SegmentationSupportReceive = 0x02"

definition SegmentationSupportNone :: SegmentationSupport where
  "SegmentationSupportNone = 0x03"

text \<open>
  \<open>type Address struct\<close>: byte slices are byte lists, the nil slice is the empty list.
\<close>

record Address =
  Mac :: "byte list"
  Net :: "16 word"
  Adr :: "byte list"

record Device =
  ID :: ObjectID
  MaxApdu :: "32 word"
  Segmentation :: SegmentationSupport
  Vendor :: "32 word"
  Addr :: Address

subsection \<open>The standard library's \<open>net.IP\<close> and \<open>net.UDPAddr\<close>\<close>

text \<open>
  \<open>net.IP\<close> is a byte slice of length 4 or 16; \<open>net.UDPAddr\<close> has the fields \<open>IP\<close>,
  \<open>Port\<close> (a Go \<open>int\<close>) and \<open>Zone\<close>. \<open>To4\<close> and \<open>To16\<close> are the library's
  conversions: \<open>To4\<close> returns a 4-byte slice as it is, the last four bytes of a 16-byte
  IPv4-mapped address, and nil otherwise; \<open>To16\<close> prefixes a 4-byte slice with the
  IPv4-in-IPv6 prefix, returns a 16-byte slice as it is, and nil otherwise.
\<close>

record UDPAddr =
  IP :: "byte list"
  Port :: int
  Zone :: string

definition IPv4len :: nat where
  "IPv4len = 4"

definition IPv6len :: nat where
  "IPv6len = 16"

definition v4InV6Prefix :: "byte list" where
  "v4InV6Prefix = [0, 0, 0, 0, 0, 0, 0, 0, 0, 0, 0xff, 0xff]"

definition To4 :: "byte list \<Rightarrow> byte list" where
  "To4 ip =
     (if length ip = IPv4len then ip
      else if length ip = IPv6len \<and> take 12 ip = v4InV6Prefix then drop 12 ip
      else [])"

definition To16 :: "byte list \<Rightarrow> byte list" where
  "To16 ip =
     (if length ip = IPv4len then v4InV6Prefix @ ip
      else if length ip = IPv6len then ip
      else [])"

text \<open>
  \<open>binary.Write(b, binary.BigEndian, port)\<close> on a \<open>uint16\<close> appends the high byte, then
  the low byte; \<open>binary.BigEndian.Uint16\<close> reads them back from a slice of two bytes.
\<close>

definition BigEndian_PutUint16 :: "16 word \<Rightarrow> byte list" where
  "BigEndian_PutUint16 v = [ucast (drop_bit 8 v), ucast v]"

definition BigEndian_Uint16 :: "byte list \<Rightarrow> 16 word" where
  "BigEndian_Uint16 b = ucast (b ! 1) OR push_bit 8 (ucast (b ! 0))"

text \<open>
  \<open>func AddressFromUDP(udp net.UDPAddr) *Address\<close>. The branch is taken on the length of
  the slice; \<open>uint16(udp.Port)\<close> keeps the low 16 bits of the \<open>int\<close>. Only \<open>Mac\<close> is
  set, \<open>Net\<close> and \<open>Adr\<close> keep their zero values.
\<close>

definition AddressFromUDP :: "UDPAddr \<Rightarrow> Address" where
  "AddressFromUDP udp =
     (let b = (if length (IP udp) = IPv4len then [4] @ To4 (IP udp)
               else [16] @ To16 (IP udp));
          port = (word_of_int (Port udp) :: 16 word)
      in \<lparr>Mac = b @ BigEndian_PutUint16 port, Net = 0, Adr = []\<rparr>)"

text \<open>
  \<open>func UDPFromAddress(addr Address) net.UDPAddr\<close>. The function has a single result;
  on each of its three guards it returns the zero value \<open>net.UDPAddr{}\<close>. The slice
  expressions \<open>addr.Mac[1 : 1+ipLen]\<close> and \<open>addr.Mac[1+ipLen : 1+ipLen+2]\<close> are in range
  after the third guard.
\<close>

definition UDPAddr_zero :: UDPAddr where
  "UDPAddr_zero = \<lparr>IP = [], Port = 0, Zone = []\<rparr>"

definition UDPFromAddress :: "Address \<Rightarrow> UDPAddr" where
  "UDPFromAddress addr =
     (if length (Mac addr) < 2 then UDPAddr_zero
      else
        let ipLen = unat (Mac addr ! 0) in
        if ipLen \<noteq> 4 \<and> ipLen \<noteq> 16 then UDPAddr_zero
        else if length (Mac addr) < 1 + ipLen + 2 then UDPAddr_zero
        else
          \<lparr>IP = take ipLen (drop 1 (Mac addr)),
           Port = uint (BigEndian_Uint16 (take 2 (drop (1 + ipLen) (Mac addr)))),
           Zone = []\<rparr>)"

text \<open>
  The specification's wording of the inverse, for comparison with the function above:
  \<open>udp_from_address\<close> "fails with malformed-address if length is insufficient or the
  length tag is not 4 or 16". An address is malformed when its MAC has no length tag,
  a tag other than 4 and 16, or fewer than \<open>1 + tag + 2\<close> bytes.
\<close>

datatype addressing_error = MalformedAddress

definition malformed :: "Address \<Rightarrow> bool" where
  "malformed addr =
     (case Mac addr of
        [] \<Rightarrow> True
      | tag # _ \<Rightarrow> (tag \<noteq> 4 \<and> tag \<noteq> 16) \<or> length (Mac addr) < 1 + unat tag + 2)"

definition udp_from_address_spec :: "Address \<Rightarrow> addressing_error + UDPAddr" where
  "udp_from_address_spec addr =
     (if malformed addr then Inl MalformedAddress
      else
        let n = unat (hd (Mac addr)) in
        Inr \<lparr>IP = take n (tl (Mac addr)),
             Port = 256 * uint (Mac addr ! (n + 1)) + uint (Mac addr ! (n + 2)),
             Zone = []\<rparr>)"

section \<open>Package bacip (bacip/client.go)\<close>

subsection \<open>Frames\<close>

text \<open>
  Modelled from the spec: the frame types \<open>APDU\<close>, \<open>NPDU\<close>, \<open>BVLC\<close>, the payload types
  \<open>WhoIs\<close>, \<open>Iam\<close>, \<open>ReadProperty\<close>, \<open>ApduError\<close> and the constants of the data-type
  class and of the service selector are declared in files of package bacip other than
  client.go. The data-type classes and the closed set of payloads are those of the
  spec's data model; the records have the fields that client.go reads or sets, under the
  names it uses (\<open>ADPU\<close> is the source's spelling).
\<close>

datatype PDUType =
    ConfirmedServiceRequest
  | UnconfirmedServiceRequest
  | SimpleAck
  | ComplexAck
  | SegmentAck
  | Error
  | Reject
  | Abort

datatype ServiceType =
    ServiceUnconfirmedIAm
  | ServiceUnconfirmedWhoIs
  | ServiceConfirmedReadProperty
  | ServiceConfirmedWriteProperty

record WhoIs =
  Low :: "32 word option"
  High :: "32 word option"

record Iam =
  ObjectID :: ObjectID
  MaxApduLength :: "32 word"
  SegmentationSupport :: SegmentationSupport
  VendorID :: "32 word"

text \<open>\<open>Data\<close> is an \<open>interface{}\<close>: any decoded value, here a type parameter.\<close>

record 'v ReadProperty =
  Data :: 'v

text \<open>
  The payload is a Go interface value: \<open>NoPayload\<close> is the nil interface, each other
  constructor one dynamic type of the closed set.
\<close>

datatype 'v Payload =
    NoPayload
  | PayloadWhoIs WhoIs
  | PayloadIam Iam
  | PayloadReadProperty "'v ReadProperty"
  | PayloadWriteProperty
  | PayloadApduError ApduError

record 'v APDU =
  DataType :: PDUType
  ServiceType :: ServiceType
  InvokeID :: byte
  Payload :: "'v Payload"

record 'v NPDU =
  IsNetworkLayerMessage :: bool
  ExpectingReply :: bool
  Destination :: "Address option"
  Source :: "Address option"
  HopCount :: byte
  ADPU :: "'v APDU option"

record 'v BVLC =
  NPDU :: "'v NPDU"

text \<open>
  The anonymous struct \<open>struct { bvlc BVLC; src net.UDPAddr }\<close> that the subscription
  callback of \<open>WhoIs\<close> sends on \<open>rChan\<close>: a decoded frame and the UDP source of its datagram.
\<close>

record 'v received =
  bvlc :: "'v BVLC"
  src :: UDPAddr

subsection \<open>Discovery: \<open>Client.WhoIs\<close>\<close>

text \<open>
  The body of \<open>case r := <-rChan\<close>, on the deduplication set \<open>map[Iam]bacnet.Address\<close>
  (an association list with distinct keys; an assignment \<open>set[*iam] = *addr\<close> replaces the
  address of a key already present). The checked assertion \<open>apdu.Payload.(*Iam)\<close> with
  \<open>!ok\<close> returns the error of line 249. The range test is made only when both \<open>data.High\<close>
  and \<open>data.Low\<close> are non-nil; the address stored is \<open>AddressFromUDP(r.src)\<close> in both
  branches.
\<close>

definition WhoIs_receive ::
  "WhoIs \<Rightarrow> 'v received \<Rightarrow> (Iam \<times> Address) list \<Rightarrow> error + (Iam \<times> Address) list" where
  "WhoIs_receive data r seen =
     (case ADPU (NPDU (bvlc r)) of
        None \<Rightarrow> Inr seen
      | Some apdu \<Rightarrow>
          if DataType apdu = UnconfirmedServiceRequest
             \<and> ServiceType apdu = ServiceUnconfirmedIAm
          then
            (case Payload apdu of
               PayloadIam iam \<Rightarrow>
                 if High data \<noteq> None \<and> Low data \<noteq> None then
                   (if Instance (ObjectID iam) \<ge> the (Low data)
                       \<and> Instance (ObjectID iam) \<le> the (High data)
                    then Inr (AList.update iam (AddressFromUDP (src r)) seen)
                    else Inr seen)
                 else Inr (AList.update iam (AddressFromUDP (src r)) seen)
             | _ \<Rightarrow> Inl UnexpectedPayloadType)
          else Inr seen)"

text \<open>
  The \<open>for { select { ... } }\<close> loop: the list holds the frames that \<open>rChan\<close> delivers
  before the timer fires, in their order; at the end of the list \<open>timer.C\<close> fires and the
  loop returns the set. An error of a frame ends the loop at once.
\<close>

fun WhoIs_loop ::
  "WhoIs \<Rightarrow> 'v received list \<Rightarrow> (Iam \<times> Address) list \<Rightarrow> error + (Iam \<times> Address) list" where
  "WhoIs_loop data [] seen = Inr seen"
| "WhoIs_loop data (r # rs) seen =
     (case WhoIs_receive data r seen of
        Inl err \<Rightarrow> Inl err
      | Inr seen' \<Rightarrow> WhoIs_loop data rs seen')"

text \<open>The \<open>bacnet.Device\<close> literal built for each entry of the set when the timer fires.\<close>

definition Device_of :: "Iam \<Rightarrow> Address \<Rightarrow> Device" where
  "Device_of iam addr =
     \<lparr>ID = ObjectID iam, MaxApdu = MaxApduLength iam,
      Segmentation = SegmentationSupport iam, Vendor = VendorID iam, Addr = addr\<rparr>"

text \<open>
  \<open>func (c *Client) WhoIs(data WhoIs, timeout time.Duration) ([]bacnet.Device, error)\<close>.
  The first argument is the result of \<open>c.broadcast(npdu)\<close>, which depends on the encoder
  and on the socket; its error is returned as it is. Go ranges over a map in no fixed
  order, so only the elements of the returned list are meaningful.
\<close>

definition Client_WhoIs ::
  "error + int \<Rightarrow> WhoIs \<Rightarrow> 'v received list \<Rightarrow> error + Device list" where
  "Client_WhoIs broadcast_result data frames =
     (case broadcast_result of
        Inl err \<Rightarrow> Inl err
      | Inr _ \<Rightarrow>
          (case WhoIs_loop data frames [] of
             Inl err \<Rightarrow> Inl err
           | Inr seen \<Rightarrow> Inr (map (\<lambda>(iam, addr). Device_of iam addr) seen)))"

text \<open>
  Vocabulary for the theorems on discovery: the announcement that a frame carries, when
  its APDU is classified (unconfirmed-request, i-am) and its payload is an \<open>Iam\<close>; and
  the frames classified so whose payload is of another dynamic type.
\<close>

definition iam_of :: "'v received \<Rightarrow> Iam option" where
  "iam_of r =
     (case ADPU (NPDU (bvlc r)) of
        None \<Rightarrow> None
      | Some apdu \<Rightarrow>
          if DataType apdu = UnconfirmedServiceRequest
             \<and> ServiceType apdu = ServiceUnconfirmedIAm
          then (case Payload apdu of PayloadIam iam \<Rightarrow> Some iam | _ \<Rightarrow> None)
          else None)"

definition iam_without_Iam_payload :: "'v received \<Rightarrow> bool" where
  "iam_without_Iam_payload r =
     (case ADPU (NPDU (bvlc r)) of
        None \<Rightarrow> False
      | Some apdu \<Rightarrow>
          DataType apdu = UnconfirmedServiceRequest
          \<and> ServiceType apdu = ServiceUnconfirmedIAm
          \<and> (case Payload apdu of PayloadIam _ \<Rightarrow> False | _ \<Rightarrow> True))"

text \<open>
  The test that \<open>WhoIs\<close> makes on an announcement: when both bounds of the request are
  set, the instance lies between them (bounds included); when one is nil, nothing is
  tested.
\<close>

definition in_requested_range :: "WhoIs \<Rightarrow> Iam \<Rightarrow> bool" where
  "in_requested_range data iam =
     (case (Low data, High data) of
        (Some lo, Some hi) \<Rightarrow>
          lo \<le> Instance (ObjectID iam) \<and> Instance (ObjectID iam) \<le> hi
      | _ \<Rightarrow> True)"

subsection \<open>\<open>Client.ReadProperty\<close>\<close>

text \<open>
  The \<open>select\<close> of \<open>ReadProperty\<close> ends on one of two events: an APDU delivered on
  \<open>rChan\<close>, or \<open>ctx.Done()\<close>.
\<close>

datatype 'v reply_event = Reply "'v APDU" | Done

text \<open>
  \<open>func (c *Client) ReadProperty(ctx, device, readProp) (interface{}, error)\<close> from the
  result of \<open>c.send(npdu)\<close> on. The assertions \<open>apdu.Payload.(*ApduError)\<close> and
  \<open>apdu.Payload.(*ReadProperty)\<close> are unchecked: on a payload of another dynamic type
  they panic.
\<close>

definition Client_ReadProperty :: "error + int \<Rightarrow> 'v reply_event \<Rightarrow> error + 'v" where
  "Client_ReadProperty send_result ev =
     (case send_result of
        Inl err \<Rightarrow> Inl err
      | Inr _ \<Rightarrow>
          (case ev of
             Done \<Rightarrow> Inl ContextError
           | Reply apdu \<Rightarrow>
               if DataType apdu = Error then
                 (case Payload apdu of
                    PayloadApduError e \<Rightarrow> Inl (ProtocolError e)
                  | _ \<Rightarrow> Inl TypeAssertionPanic)
               else if DataType apdu = ComplexAck
                       \<and> ServiceType apdu = ServiceConfirmedReadProperty then
                 (case Payload apdu of
                    PayloadReadProperty rp \<Rightarrow> Inr (Data rp)
                  | _ \<Rightarrow> Inl TypeAssertionPanic)
               else Inl (errorString ''invalid answer'')))"

subsection \<open>Frames of the discovery scenarios\<close>

text \<open>
  The inputs of the specification's discovery scenarios: the announcement of a device
  (type 8, vendor 260, max-APDU 1476, segmentation both) with a given instance, a frame
  classified (unconfirmed-request, i-am) with a given source specifier, payload and UDP
  source, and the UDP source \<open>192.0.2.5:47808\<close>.
\<close>

definition example_Iam :: "32 word \<Rightarrow> Iam" where
  "example_Iam inst =
     \<lparr>ObjectID = \<lparr>Type = 8, Instance = inst\<rparr>, MaxApduLength = 1476,
      SegmentationSupport = SegmentationSupportBoth, VendorID = 260\<rparr>"

definition IAm_frame :: "Address option \<Rightarrow> nat Payload \<Rightarrow> UDPAddr \<Rightarrow> nat received" where
  "IAm_frame source payload udp =
     \<lparr>bvlc = \<lparr>NPDU = \<lparr>IsNetworkLayerMessage = False, ExpectingReply = False,
                       Destination = None, Source = source, HopCount = 255,
                       ADPU = Some \<lparr>DataType = UnconfirmedServiceRequest,
                                    ServiceType = ServiceUnconfirmedIAm,
                                    InvokeID = 0, Payload = payload\<rparr>\<rparr>\<rparr>,
      src = udp\<rparr>"

definition example_src :: UDPAddr where
  "example_src = \<lparr>IP = [192, 0, 2, 5], Port = 47808, Zone = []\<rparr>"

section \<open>Object identifiers: packing and unpacking\<close>

lemma MaxInstance_mask: "MaxInstance = mask 22"
  by (simp add: MaxInstance_def mask_eq_exp_minus_1)

lemma lt_take16: "(t :: 16 word) < 2 ^ 10 \<Longrightarrow> take_bit 10 t = t"
  by (simp add: less_mask_eq take_bit_eq_mask)

lemma lt_take32: "(i :: 32 word) < 2 ^ 22 \<Longrightarrow> take_bit 22 i = i"
  by (simp add: less_mask_eq take_bit_eq_mask)

lemma not_gt_MaxInstance: "(i :: 32 word) < 2 ^ 22 \<Longrightarrow> \<not> MaxInstance < i"
  unfolding MaxInstance_def by (simp add: word_less_nat_alt)

lemma not_gt_maxObjectType: "(t :: 16 word) < 2 ^ 10 \<Longrightarrow> \<not> maxObjectType < t"
  unfolding maxObjectType_def by (simp add: word_less_nat_alt)

lemma unpack_pack_bits:
  "ObjectIDFromUint32 (push_bit 22 (ucast (take_bit 10 (t::16 word)) :: 32 word) OR take_bit 22 i)
     = \<lparr>Type = take_bit 10 t, Instance = take_bit 22 i\<rparr>"
  unfolding ObjectIDFromUint32_def instanceBits_def MaxInstance_mask
  apply simp
  apply (rule conjI)
   apply (rule bit_word_eqI)
   apply (auto simp: bit_simps)[1]
  apply (rule bit_word_eqI)
  apply (auto simp: bit_simps take_bit_eq_mask[symmetric])
  done

lemma pack_unpack_bits:
  "push_bit 22 (ucast (ucast (drop_bit 22 (v::32 word)) :: 16 word) :: 32 word) OR (v AND mask 22) = v"
  by (rule bit_word_eqI) (auto simp: bit_simps)

lemma unpacked_Type_le: "Type (ObjectIDFromUint32 v) \<le> 0x3FF"
proof -
  let ?t = "ucast (drop_bit 22 v) :: 16 word"
  have "?t = ?t AND mask 10"
    by (rule bit_word_eqI) (auto simp: bit_simps dest: bit_imp_le_length)
  moreover have "?t AND mask 10 \<le> mask 10"
    by (rule word_and_le1)
  ultimately have "?t \<le> mask 10" by simp
  then show ?thesis
    by (simp add: ObjectIDFromUint32_def instanceBits_def mask_eq_exp_minus_1)
qed

lemma unpacked_Instance_le: "Instance (ObjectIDFromUint32 v) \<le> 0x3FFFFF"
proof -
  have "v AND MaxInstance \<le> MaxInstance" by (rule word_and_le1)
  then show ?thesis by (simp add: ObjectIDFromUint32_def MaxInstance_def)
qed

text \<open>
  Claim C1. For every type \<open>t < 2^10\<close> and instance \<open>i < 2^22\<close>, \<open>Encode\<close> of the ObjectID
  \<open>(t, i)\<close> succeeds, and \<open>ObjectIDFromUint32\<close> of the resulting 32-bit value is \<open>(t, i)\<close>
  again; the value has the type in its high 10 bits and the instance in its low 22 bits.
\<close>

theorem ObjectID_pack_unpack:
  fixes t :: ObjectType and i :: ObjectInstance
  assumes "t < 2 ^ 10" and "i < 2 ^ 22"
  shows "\<exists>v. Encode \<lparr>Type = t, Instance = i\<rparr> = Inr v
           \<and> ObjectIDFromUint32 v = \<lparr>Type = t, Instance = i\<rparr>
           \<and> drop_bit 22 v = ucast t \<and> take_bit 22 v = i"
proof -
  let ?v = "push_bit 22 (ucast t :: 32 word) OR i"
  have enc: "Encode \<lparr>Type = t, Instance = i\<rparr> = Inr ?v"
    using assms by (simp add: Encode_def instanceBits_def not_gt_MaxInstance not_gt_maxObjectType)
  have "ObjectIDFromUint32 (push_bit 22 (ucast (take_bit 10 t) :: 32 word) OR take_bit 22 i)
          = \<lparr>Type = take_bit 10 t, Instance = take_bit 22 i\<rparr>"
    by (rule unpack_pack_bits)
  then have dec: "ObjectIDFromUint32 ?v = \<lparr>Type = t, Instance = i\<rparr>"
    using assms by (simp add: lt_take16 lt_take32)
  have "drop_bit 22 (push_bit 22 (ucast (take_bit 10 t) :: 32 word) OR take_bit 22 i)
          = ucast (take_bit 10 t)"
    by (rule bit_word_eqI) (auto simp: bit_simps)
  then have hi: "drop_bit 22 ?v = ucast t"
    using assms by (simp add: lt_take16 lt_take32)
  have "take_bit 22 (push_bit 22 (ucast (take_bit 10 t) :: 32 word) OR take_bit 22 i)
          = take_bit 22 i"
    by (rule bit_word_eqI) (auto simp: bit_simps)
  then have lo: "take_bit 22 ?v = i"
    using assms by (simp add: lt_take16 lt_take32)
  from enc dec hi lo show ?thesis by blast
qed

theorem ObjectID_pack_unpack_witness:
  "(8 :: ObjectType) < 2 ^ 10 \<and> (1234 :: ObjectInstance) < 2 ^ 22
   \<and> (\<exists>v. Encode \<lparr>Type = 8, Instance = 1234\<rparr> = Inr v
           \<and> ObjectIDFromUint32 v = \<lparr>Type = 8, Instance = 1234\<rparr>
           \<and> drop_bit 22 v = ucast (8 :: ObjectType) \<and> take_bit 22 v = 1234)"
  using ObjectID_pack_unpack [of 8 1234] by simp

text \<open>
  When \<open>Encode\<close> fails: exactly on an instance above \<open>0x3FFFFF\<close> or a type above
  \<open>0x400\<close>, the bound that the second guard compares with.
\<close>

lemma Encode_fails_iff:
  "(\<exists>err. Encode oid = Inl err) \<longleftrightarrow> Instance oid > 0x3FFFFF \<or> Type oid > 0x400"
  by (simp add: Encode_def MaxInstance_def maxObjectType_def)

text \<open>
  Claim C2. \<open>Encode\<close> is to fail exactly when the instance exceeds \<open>2^22 - 1\<close> or the type
  exceeds \<open>2^10 - 1\<close>. The guard on the type is \<open>o.Type > maxObjectType\<close> with
  \<open>maxObjectType = 0x400\<close>, so the type \<open>0x400 = 2^10\<close> passes it: the shift by 22 bits
  drops the type, \<open>Encode\<close> returns the bare instance without an error, and unpacking that
  value gives type 0.
\<close>

theorem Encode_accepts_type_0x400:
  "Encode \<lparr>Type = 0x400, Instance = 5\<rparr> = Inr 5
   \<and> ObjectIDFromUint32 5 = \<lparr>Type = 0, Instance = 5\<rparr>"
  by (simp add: Encode_def ObjectIDFromUint32_def MaxInstance_def maxObjectType_def
      instanceBits_def)

text \<open>
  Claim C10. For every 32-bit value \<open>v\<close>, \<open>ObjectIDFromUint32 v\<close> has a type of at most
  \<open>0x3FF\<close> and an instance of at most \<open>0x3FFFFF\<close>, and \<open>Encode\<close> of it succeeds and returns
  \<open>v\<close>.
\<close>

theorem ObjectID_unpack_pack:
  "Type (ObjectIDFromUint32 v) \<le> 0x3FF
   \<and> Instance (ObjectIDFromUint32 v) \<le> 0x3FFFFF
   \<and> Encode (ObjectIDFromUint32 v) = Inr v"
proof -
  have t: "Type (ObjectIDFromUint32 v) \<le> 0x3FF" by (rule unpacked_Type_le)
  have i: "Instance (ObjectIDFromUint32 v) \<le> 0x3FFFFF" by (rule unpacked_Instance_le)
  from t have nt: "\<not> maxObjectType < Type (ObjectIDFromUint32 v)"
    by (simp add: maxObjectType_def word_le_nat_alt word_less_nat_alt)
  from i have ni: "\<not> MaxInstance < Instance (ObjectIDFromUint32 v)"
    by (simp add: MaxInstance_def word_le_nat_alt word_less_nat_alt)
  have "Encode (ObjectIDFromUint32 v)
          = Inr (push_bit 22 (ucast (Type (ObjectIDFromUint32 v)) :: 32 word)
                  OR Instance (ObjectIDFromUint32 v))"
    using nt ni by (simp add: Encode_def instanceBits_def)
  also have "\<dots> = Inr v"
    by (simp add: ObjectIDFromUint32_def instanceBits_def MaxInstance_mask pack_unpack_bits)
  finally show ?thesis using t i by simp
qed

section \<open>Addresses: UDP to BACnet and back\<close>

lemma port_hi_byte:
  "(ucast (drop_bit 8 (word_of_int p :: 16 word)) :: 8 word) = word_of_int (p div 256)"
proof -
  have "(ucast (drop_bit 8 (word_of_int p :: 16 word)) :: 8 word) = word_of_int (drop_bit 8 p)"
    by (rule bit_word_eqI) (auto simp: bit_simps)
  then show ?thesis by (simp add: drop_bit_eq_div)
qed

lemma port_lo_byte: "(ucast (word_of_int p :: 16 word) :: 8 word) = word_of_int p"
  by (rule bit_word_eqI) (auto simp: bit_simps)

lemma Uint16_PutUint16: "BigEndian_Uint16 (BigEndian_PutUint16 w) = w"
  unfolding BigEndian_Uint16_def BigEndian_PutUint16_def
  apply simp
  apply (rule bit_word_eqI)
  apply (auto simp: bit_simps)
  done

lemma uint_port: "0 \<le> p \<Longrightarrow> p < 65536 \<Longrightarrow> uint (word_of_int p :: 16 word) = p"
  by (simp add: uint_word_of_int)

lemma list4: "length xs = 4 \<Longrightarrow> xs = [xs ! 0, xs ! 1, xs ! 2, xs ! 3]"
  by (auto simp: list_eq_iff_nth_eq less_Suc_eq numeral_eq_Suc)

lemma UDPFromAddress_wellformed:
  assumes "length ip = 4 \<or> length ip = 16" and "length pb = 2"
  shows "UDPFromAddress \<lparr>Mac = word_of_nat (length ip) # ip @ pb, Net = n, Adr = a\<rparr>
           = \<lparr>IP = ip, Port = uint (BigEndian_Uint16 pb), Zone = []\<rparr>"
  using assms by (auto simp: UDPFromAddress_def Let_def)

text \<open>
  Claim C3. For every UDP address whose IP is an IPv4 address (a slice of 4 bytes, or
  of 16 bytes in the IPv4-mapped form; the proof covers every slice of either length) and
  whose port is a UDP port (0 to 65535), \<open>UDPFromAddress\<close> of \<open>AddressFromUDP\<close> returns
  the same IP and the same port.
\<close>

theorem Address_roundtrip:
  assumes "length (IP udp) = 4 \<or> length (IP udp) = 16"
    and "0 \<le> Port udp" and "Port udp < 65536"
  shows "IP (UDPFromAddress (AddressFromUDP udp)) = IP udp
         \<and> Port (UDPFromAddress (AddressFromUDP udp)) = Port udp"
proof -
  let ?pb = "BigEndian_PutUint16 (word_of_int (Port udp))"
  have len: "length ?pb = 2" by (simp add: BigEndian_PutUint16_def)
  have "AddressFromUDP udp
          = \<lparr>Mac = word_of_nat (length (IP udp)) # IP udp @ ?pb, Net = 0, Adr = []\<rparr>"
    using assms(1)
    by (auto simp: AddressFromUDP_def IPv4len_def IPv6len_def To4_def To16_def Let_def)
  then have "UDPFromAddress (AddressFromUDP udp)
          = \<lparr>IP = IP udp, Port = uint (BigEndian_Uint16 ?pb), Zone = []\<rparr>"
    using UDPFromAddress_wellformed [OF assms(1) len] by simp
  then show ?thesis
    using assms(2,3) by (simp add: Uint16_PutUint16 uint_port)
qed

theorem Address_roundtrip_witness:
  "(length (IP \<lparr>IP = [192, 0, 2, 5], Port = 47808, Zone = []\<rparr>) = 4
      \<or> length (IP \<lparr>IP = [192, 0, 2, 5], Port = 47808, Zone = []\<rparr>) = 16)
   \<and> 0 \<le> Port \<lparr>IP = [192, 0, 2, 5], Port = 47808, Zone = []\<rparr>
   \<and> Port \<lparr>IP = [192, 0, 2, 5], Port = 47808, Zone = []\<rparr> < 65536
   \<and> IP (UDPFromAddress (AddressFromUDP \<lparr>IP = [192, 0, 2, 5], Port = 47808, Zone = []\<rparr>))
        = [192, 0, 2, 5]
   \<and> Port (UDPFromAddress (AddressFromUDP \<lparr>IP = [192, 0, 2, 5], Port = 47808, Zone = []\<rparr>))
        = 47808"
  using Address_roundtrip [of "\<lparr>IP = [192, 0, 2, 5], Port = 47808, Zone = []\<rparr>"] by simp

text \<open>
  \<open>Port\<close> is a Go \<open>int\<close>: of a value that is not a UDP port, only the low 16 bits come
  back.
\<close>

lemma Address_roundtrip_port_truncated:
  "Port (UDPFromAddress (AddressFromUDP \<lparr>IP = [192, 0, 2, 5], Port = 65536 + 47808, Zone = []\<rparr>))
     = 47808"
  by (simp add: AddressFromUDP_def UDPFromAddress_def IPv4len_def To4_def
      BigEndian_PutUint16_def BigEndian_Uint16_def)

text \<open>
  Claim C4, as stated: for every IPv4 UDP address the \<open>Mac\<close> is the 7 bytes
  \<open>[4, ip[0], ip[1], ip[2], ip[3], port_hi, port_lo]\<close>. The branch of \<open>AddressFromUDP\<close> is
  taken on the length of the slice, and Go also holds an IPv4 address in 16 bytes (the
  IPv4-mapped form that \<open>net.IPv4\<close> and \<open>net.ParseIP\<close> return): \<open>192.0.2.5\<close> in that form,
  which \<open>To4\<close> recognises as an IPv4 address, gets the tag 16 and a MAC of 19 bytes.
\<close>

theorem AddressFromUDP_IPv4_mapped:
  "To4 [0, 0, 0, 0, 0, 0, 0, 0, 0, 0, 0xff, 0xff, 192, 0, 2, 5] = [192, 0, 2, 5]
   \<and> Mac (AddressFromUDP \<lparr>IP = [0, 0, 0, 0, 0, 0, 0, 0, 0, 0, 0xff, 0xff, 192, 0, 2, 5],
                           Port = 47808, Zone = []\<rparr>)
        = [16, 0, 0, 0, 0, 0, 0, 0, 0, 0, 0, 0xff, 0xff, 192, 0, 2, 5, 0xBA, 0xC0]
   \<and> Mac (AddressFromUDP \<lparr>IP = [0, 0, 0, 0, 0, 0, 0, 0, 0, 0, 0xff, 0xff, 192, 0, 2, 5],
                           Port = 47808, Zone = []\<rparr>)
        \<noteq> [4, 192, 0, 2, 5, 0xBA, 0xC0]
   \<and> length (Mac (AddressFromUDP
                  \<lparr>IP = [0, 0, 0, 0, 0, 0, 0, 0, 0, 0, 0xff, 0xff, 192, 0, 2, 5],
                   Port = 47808, Zone = []\<rparr>)) = 19"
  by (simp add: AddressFromUDP_def IPv4len_def IPv6len_def To4_def To16_def v4InV6Prefix_def
      BigEndian_PutUint16_def)

text \<open>
  Claim C4, amended: for every UDP address whose IP is held in a slice of 4 bytes, the
  \<open>Mac\<close> of the result is exactly the 7 bytes
  \<open>[4, ip[0], ip[1], ip[2], ip[3], port_hi, port_lo]\<close>: the tag 4, the four IP bytes, and
  the port in big-endian order. For every UDP address whose IP is held in a slice of 16
  bytes, an IPv4-mapped address included, it is the 19 bytes of the tag 16, the 16 bytes
  of the slice, and the port in big-endian order.
\<close>

theorem AddressFromUDP_IPv4_Mac:
  "(length (IP udp) = 4 \<longrightarrow>
      Mac (AddressFromUDP udp)
        = [4, IP udp ! 0, IP udp ! 1, IP udp ! 2, IP udp ! 3,
           word_of_int (Port udp div 256), word_of_int (Port udp)])
   \<and> (length (IP udp) = 16 \<longrightarrow>
      Mac (AddressFromUDP udp)
        = 16 # IP udp @ [word_of_int (Port udp div 256), word_of_int (Port udp)])"
proof (intro conjI impI)
  assume len: "length (IP udp) = 4"
  have "Mac (AddressFromUDP udp) = [4] @ IP udp @ BigEndian_PutUint16 (word_of_int (Port udp))"
    using len by (simp add: AddressFromUDP_def IPv4len_def To4_def Let_def)
  also have "IP udp = [IP udp ! 0, IP udp ! 1, IP udp ! 2, IP udp ! 3]"
    using len by (rule list4)
  finally show "Mac (AddressFromUDP udp)
        = [4, IP udp ! 0, IP udp ! 1, IP udp ! 2, IP udp ! 3,
           word_of_int (Port udp div 256), word_of_int (Port udp)]"
    by (simp add: BigEndian_PutUint16_def port_hi_byte port_lo_byte)
next
  assume len: "length (IP udp) = 16"
  then show "Mac (AddressFromUDP udp)
        = 16 # IP udp @ [word_of_int (Port udp div 256), word_of_int (Port udp)]"
    by (simp add: AddressFromUDP_def IPv4len_def IPv6len_def To16_def Let_def
        BigEndian_PutUint16_def port_hi_byte port_lo_byte)
qed

theorem AddressFromUDP_IPv4_Mac_witness:
  "length (IP \<lparr>IP = [192, 0, 2, 5], Port = 47808, Zone = []\<rparr>) = 4
   \<and> Mac (AddressFromUDP \<lparr>IP = [192, 0, 2, 5], Port = 47808, Zone = []\<rparr>)
        = [4, 192, 0, 2, 5, 0xBA, 0xC0]
   \<and> length (IP \<lparr>IP = [0, 0, 0, 0, 0, 0, 0, 0, 0, 0, 0xff, 0xff, 192, 0, 2, 5],
                  Port = 47808, Zone = []\<rparr>) = 16
   \<and> Mac (AddressFromUDP \<lparr>IP = [0, 0, 0, 0, 0, 0, 0, 0, 0, 0, 0xff, 0xff, 192, 0, 2, 5],
                           Port = 47808, Zone = []\<rparr>)
        = [16, 0, 0, 0, 0, 0, 0, 0, 0, 0, 0, 0xff, 0xff, 192, 0, 2, 5, 0xBA, 0xC0]"
  using AddressFromUDP_IPv4_Mac [of "\<lparr>IP = [192, 0, 2, 5], Port = 47808, Zone = []\<rparr>"]
    AddressFromUDP_IPv4_Mac [of "\<lparr>IP = [0, 0, 0, 0, 0, 0, 0, 0, 0, 0, 0xff, 0xff, 192, 0, 2, 5],
                                  Port = 47808, Zone = []\<rparr>"]
  by simp

subsection \<open>Malformed addresses\<close>

lemma unat_tag_4: "unat (tag :: byte) = 4 \<longleftrightarrow> tag = 4"
  using word_unat_eq_iff [of tag 4] by simp

lemma unat_tag_16: "unat (tag :: byte) = 16 \<longleftrightarrow> tag = 16"
  using word_unat_eq_iff [of tag 16] by simp

lemma UDPFromAddress_of_malformed:
  assumes "malformed addr"
  shows "UDPFromAddress addr = UDPAddr_zero"
proof (cases "Mac addr")
  case Nil
  then show ?thesis by (simp add: UDPFromAddress_def)
next
  case (Cons tag rest)
  with assms have m: "(tag \<noteq> 4 \<and> tag \<noteq> 16) \<or> length (Mac addr) < 1 + unat tag + 2"
    by (simp add: malformed_def)
  have hd: "Mac addr ! 0 = tag" using Cons by simp
  show ?thesis
  proof (cases "length (Mac addr) < 2")
    case True
    then show ?thesis by (simp add: UDPFromAddress_def)
  next
    case False
    with m show ?thesis
      unfolding UDPFromAddress_def Let_def hd unat_tag_4 unat_tag_16
      by (simp only: if_False if_True split: if_splits) auto
  qed
qed

text \<open>
  The zero value is returned on malformed addresses only, and on every other address
  the function returns what the specification's inverse returns.
\<close>

lemma UDPFromAddress_zero_iff: "UDPFromAddress addr = UDPAddr_zero \<longleftrightarrow> malformed addr"
proof
  assume "malformed addr"
  then show "UDPFromAddress addr = UDPAddr_zero" by (rule UDPFromAddress_of_malformed)
next
  assume z: "UDPFromAddress addr = UDPAddr_zero"
  show "malformed addr"
  proof (rule ccontr)
    assume n: "\<not> malformed addr"
    then obtain tag rest where c: "Mac addr = tag # rest"
      and t: "tag = 4 \<or> tag = 16" and l: "\<not> length (Mac addr) < 1 + unat tag + 2"
      by (auto simp: malformed_def split: list.splits)
    from c l t have "IP (UDPFromAddress addr) = take (unat tag) rest"
      by (auto simp: UDPFromAddress_def Let_def)
    moreover from c l t have "length (take (unat tag) rest) = unat tag" by auto
    ultimately have "length (IP (UDPFromAddress addr)) = unat tag" by simp
    with z t show False by (auto simp: UDPAddr_zero_def)
  qed
qed

lemma uint_be16:
  "uint (ucast (b1::8 word) OR push_bit 8 (ucast (b0::8 word)) :: 16 word)
     = 256 * uint b0 + uint b1"
proof -
  have d: "\<not> bit (uint b1) n \<or> \<not> bit (push_bit 8 (uint b0)) n" for n
    by (auto simp: bit_simps dest: bit_imp_le_length)
  have a: "uint (ucast b :: 16 word) = uint b" for b :: "8 word"
    by (simp add: uint_up_ucast is_up)
  have "uint (push_bit 8 (ucast b0 :: 16 word)) = take_bit 16 (push_bit 8 (uint b0))"
    by (simp add: unsigned_push_bit_eq a)
  also have "\<dots> = push_bit 8 (uint b0)"
    by (rule bit_eqI) (auto simp: bit_simps dest: bit_imp_le_length)
  finally have b: "uint (push_bit 8 (ucast b0 :: 16 word)) = push_bit 8 (uint b0)" .
  have "uint (ucast b1 OR push_bit 8 (ucast b0) :: 16 word) = uint b1 OR push_bit 8 (uint b0)"
    by (simp add: uint_or a b)
  also have "\<dots> = uint b1 + push_bit 8 (uint b0)"
    using disjunctive_add [of "uint b1" "push_bit 8 (uint b0)"] d by simp
  finally show ?thesis by (simp add: push_bit_eq_mult)
qed

lemma udp_from_address_spec_wellformed:
  assumes "\<not> malformed addr"
  shows "udp_from_address_spec addr = Inr (UDPFromAddress addr)"
proof -
  from assms obtain tag rest where c: "Mac addr = tag # rest"
      and t: "tag = 4 \<or> tag = 16" and l: "\<not> length (Mac addr) < 1 + unat tag + 2"
    by (auto simp: malformed_def split: list.splits)
  from c l t show ?thesis
    using assms
    by (auto simp: udp_from_address_spec_def UDPFromAddress_def Let_def BigEndian_Uint16_def
        uint_be16)
qed

text \<open>
  Claim C5, as stated: on an address whose MAC is too short or whose tag is neither 4
  nor 16, \<open>UDPFromAddress\<close> fails with a malformed-address error. The function has no
  error result: on the MAC \<open>[4, 192, 0]\<close>, which is too short for its tag, the
  specification's inverse fails with malformed-address, and the function returns the zero
  \<open>net.UDPAddr\<close> as an ordinary value.
\<close>

theorem UDPFromAddress_returns_no_error:
  "udp_from_address_spec \<lparr>Mac = [4, 192, 0], Net = 0, Adr = []\<rparr> = Inl MalformedAddress
   \<and> UDPFromAddress \<lparr>Mac = [4, 192, 0], Net = 0, Adr = []\<rparr> = \<lparr>IP = [], Port = 0, Zone = []\<rparr>
   \<and> Inr (UDPFromAddress \<lparr>Mac = [4, 192, 0], Net = 0, Adr = []\<rparr>)
        \<noteq> udp_from_address_spec \<lparr>Mac = [4, 192, 0], Net = 0, Adr = []\<rparr>"
  by (simp add: udp_from_address_spec_def malformed_def UDPFromAddress_def UDPAddr_zero_def)

text \<open>
  Claim C5, amended: on every address whose MAC is too short (empty, or shorter than
  \<open>1 + tag + 2\<close> bytes) or whose first byte is neither 4 nor 16, \<open>UDPFromAddress\<close> returns
  the zero \<open>net.UDPAddr\<close> (nil IP, port 0), and no error.
\<close>

theorem UDPFromAddress_malformed_zero:
  assumes "malformed addr"
  shows "UDPFromAddress addr = \<lparr>IP = [], Port = 0, Zone = []\<rparr>"
  using UDPFromAddress_of_malformed [OF assms] by (simp add: UDPAddr_zero_def)

theorem UDPFromAddress_malformed_zero_witness:
  "malformed \<lparr>Mac = [4, 192, 0], Net = 0, Adr = []\<rparr>
   \<and> UDPFromAddress \<lparr>Mac = [4, 192, 0], Net = 0, Adr = []\<rparr> = \<lparr>IP = [], Port = 0, Zone = []\<rparr>"
  using UDPFromAddress_malformed_zero [of "\<lparr>Mac = [4, 192, 0], Net = 0, Adr = []\<rparr>"]
  by (simp add: malformed_def)

section \<open>Discovery\<close>

subsection \<open>One received frame\<close>

lemma in_requested_range_iff:
  "in_requested_range data iam \<longleftrightarrow>
     (\<forall>lo hi. Low data = Some lo \<longrightarrow> High data = Some hi \<longrightarrow>
        lo \<le> Instance (ObjectID iam) \<and> Instance (ObjectID iam) \<le> hi)"
  by (auto simp: in_requested_range_def split: option.splits)

lemma WhoIs_receive_cases:
  "WhoIs_receive data r seen =
     (if iam_without_Iam_payload r then Inl UnexpectedPayloadType
      else case iam_of r of
             None \<Rightarrow> Inr seen
           | Some iam \<Rightarrow>
               if in_requested_range data iam
               then Inr (AList.update iam (AddressFromUDP (src r)) seen)
               else Inr seen)"
  by (auto simp: WhoIs_receive_def iam_without_Iam_payload_def iam_of_def in_requested_range_def
      split: option.splits Payload.splits)

lemma iam_of_not_bad: "iam_of r = Some iam \<Longrightarrow> \<not> iam_without_Iam_payload r"
  by (auto simp: iam_of_def iam_without_Iam_payload_def
      split: option.splits if_splits Payload.splits)

subsection \<open>The loop\<close>

lemma WhoIs_loop_append:
  "WhoIs_loop data (xs @ ys) seen =
     (case WhoIs_loop data xs seen of Inl err \<Rightarrow> Inl err | Inr s \<Rightarrow> WhoIs_loop data ys s)"
  by (induction xs arbitrary: seen) (auto split: sum.splits)

lemma WhoIs_loop_error_iff:
  "(\<exists>err. WhoIs_loop data frames seen = Inl err)
     \<longleftrightarrow> (\<exists>r\<in>set frames. iam_without_Iam_payload r)"
  by (induction frames arbitrary: seen)
     (auto simp: WhoIs_receive_cases split: sum.splits option.splits if_splits)

lemma WhoIs_loop_error_kind:
  "WhoIs_loop data frames seen = Inl err \<Longrightarrow> err = UnexpectedPayloadType"
  by (induction frames arbitrary: seen)
     (auto simp: WhoIs_receive_cases split: sum.splits option.splits if_splits)

text \<open>
  The keys of the set when the timer fires: those it had, and the announcements received
  that pass the range test.
\<close>

lemma WhoIs_loop_keys:
  "WhoIs_loop data frames seen = Inr seen' \<Longrightarrow>
     fst ` set seen' =
       fst ` set seen
       \<union> {iam. in_requested_range data iam \<and> (\<exists>r\<in>set frames. iam_of r = Some iam)}"
proof (induction frames arbitrary: seen)
  case Nil
  then show ?case by simp
next
  case (Cons r rs)
  from Cons.prems obtain s where s: "WhoIs_receive data r seen = Inr s"
    and l: "WhoIs_loop data rs s = Inr seen'"
    by (auto split: sum.splits)
  have "fst ` set s = fst ` set seen
       \<union> {iam. in_requested_range data iam \<and> iam_of r = Some iam}"
  proof (cases "iam_of r")
    case None
    with s show ?thesis by (simp add: WhoIs_receive_cases split: if_splits)
  next
    case (Some iam)
    show ?thesis
    proof (cases "in_requested_range data iam")
      case True
      with s Some have "s = AList.update iam (AddressFromUDP (src r)) seen"
        by (simp add: WhoIs_receive_cases split: if_splits)
      then have "fst ` set s = {iam} \<union> fst ` set seen" by (simp add: dom_update)
      with Some True show ?thesis by auto
    next
      case False
      with s Some have "s = seen" by (simp add: WhoIs_receive_cases split: if_splits)
      with Some False show ?thesis by auto
    qed
  qed
  with Cons.IH [OF l] show ?case by auto
qed

lemma WhoIs_loop_distinct:
  "WhoIs_loop data frames seen = Inr seen' \<Longrightarrow> distinct (map fst seen)
     \<Longrightarrow> distinct (map fst seen')"
proof (induction frames arbitrary: seen)
  case Nil
  then show ?case by simp
next
  case (Cons r rs)
  from Cons.prems obtain s where s: "WhoIs_receive data r seen = Inr s"
    and l: "WhoIs_loop data rs s = Inr seen'"
    by (auto split: sum.splits)
  from s Cons.prems(2) have "distinct (map fst s)"
    by (auto simp: WhoIs_receive_cases distinct_update split: if_splits option.splits)
  with Cons.IH [OF l] show ?case by simp
qed

lemma WhoIs_loop_untouched:
  "WhoIs_loop data frames seen = Inr seen' \<Longrightarrow> \<forall>r\<in>set frames. iam_of r \<noteq> Some iam
     \<Longrightarrow> map_of seen' iam = map_of seen iam"
proof (induction frames arbitrary: seen)
  case Nil
  then show ?case by simp
next
  case (Cons r rs)
  from Cons.prems obtain s where s: "WhoIs_receive data r seen = Inr s"
    and l: "WhoIs_loop data rs s = Inr seen'"
    by (auto split: sum.splits)
  from s Cons.prems(2) have "map_of s iam = map_of seen iam"
    by (auto simp: WhoIs_receive_cases update_conv' split: if_splits option.splits)
  moreover from Cons.prems(2) have "\<forall>r\<in>set rs. iam_of r \<noteq> Some iam" by simp
  ultimately show ?case using Cons.IH [OF l] by simp
qed

subsection \<open>The returned devices\<close>

lemma Device_of_inject: "Device_of iam a = Device_of iam' a' \<longleftrightarrow> iam = iam' \<and> a = a'"
  by (cases iam; cases iam') (auto simp: Device_of_def)

lemma Device_of_mem:
  "Device_of iam a \<in> set (map (\<lambda>(iam, addr). Device_of iam addr) seen)
     \<longleftrightarrow> (iam, a) \<in> set seen"
  by (auto simp: Device_of_inject)

lemma Client_WhoIs_Inr:
  "Client_WhoIs b data frames = Inr devices \<longleftrightarrow>
     (\<exists>n seen. b = Inr n \<and> WhoIs_loop data frames [] = Inr seen
        \<and> devices = map (\<lambda>(iam, addr). Device_of iam addr) seen)"
  by (auto simp: Client_WhoIs_def split: sum.splits)

lemma WhoIs_kept_iff:
  assumes "Client_WhoIs b data frames = Inr devices"
  shows "(\<exists>addr. Device_of iam addr \<in> set devices) \<longleftrightarrow>
           in_requested_range data iam \<and> (\<exists>r\<in>set frames. iam_of r = Some iam)"
proof -
  from assms obtain seen where l: "WhoIs_loop data frames [] = Inr seen"
    and d: "devices = map (\<lambda>(iam, addr). Device_of iam addr) seen"
    by (auto simp: Client_WhoIs_Inr)
  have "(\<exists>addr. Device_of iam addr \<in> set devices) \<longleftrightarrow> iam \<in> fst ` set seen"
    unfolding d Device_of_mem by force
  also have "\<dots> \<longleftrightarrow> in_requested_range data iam \<and> (\<exists>r\<in>set frames. iam_of r = Some iam)"
    using WhoIs_loop_keys [OF l] by simp
  finally show ?thesis .
qed

text \<open>
  What the set holds when the timer fires: for each announcement received that passes
  the range test, the address of the UDP source of the last frame that carried it.
\<close>

lemma WhoIs_collected:
  assumes l: "WhoIs_loop data frames [] = Inr seen"
  shows "(iam, a) \<in> set seen \<longleftrightarrow>
           in_requested_range data iam
           \<and> (\<exists>pre r post. frames = pre @ r # post \<and> iam_of r = Some iam
                 \<and> (\<forall>r'\<in>set post. iam_of r' \<noteq> Some iam)
                 \<and> a = AddressFromUDP (src r))"
proof -
  have dist: "distinct (map fst seen)"
    using WhoIs_loop_distinct [OF l] by simp
  have last: "map_of seen iam = Some (AddressFromUDP (src r))"
    if fr: "frames = pre @ r # post" and ri: "iam_of r = Some iam"
      and po: "\<forall>r'\<in>set post. iam_of r' \<noteq> Some iam"
      and rng: "in_requested_range data iam" for pre r post
  proof -
    from l fr obtain s1 where "WhoIs_loop data (r # post) s1 = Inr seen"
      by (auto simp: WhoIs_loop_append split: sum.splits)
    then obtain s2 where rc: "WhoIs_receive data r s1 = Inr s2"
      and lp: "WhoIs_loop data post s2 = Inr seen"
      by (auto split: sum.splits)
    from rc ri rng have "s2 = AList.update iam (AddressFromUDP (src r)) s1"
      by (simp add: WhoIs_receive_cases iam_of_not_bad)
    then have "map_of s2 iam = Some (AddressFromUDP (src r))"
      by (simp add: update_conv')
    with WhoIs_loop_untouched [OF lp po] show ?thesis by simp
  qed
  show ?thesis
  proof
    assume mem: "(iam, a) \<in> set seen"
    then have "iam \<in> fst ` set seen" by force
    with WhoIs_loop_keys [OF l] have rng: "in_requested_range data iam"
      and ex: "\<exists>r\<in>set frames. iam_of r = Some iam"
      by auto
    from split_list_last_prop [OF ex] obtain pre r post where
      fr: "frames = pre @ r # post" and ri: "iam_of r = Some iam"
      and po: "\<forall>r'\<in>set post. iam_of r' \<noteq> Some iam"
      by blast
    from last [OF fr ri po rng] dist mem have "a = AddressFromUDP (src r)" by simp
    with rng fr ri po
    show "in_requested_range data iam
           \<and> (\<exists>pre r post. frames = pre @ r # post \<and> iam_of r = Some iam
                 \<and> (\<forall>r'\<in>set post. iam_of r' \<noteq> Some iam)
                 \<and> a = AddressFromUDP (src r))"
      by blast
  next
    assume "in_requested_range data iam
           \<and> (\<exists>pre r post. frames = pre @ r # post \<and> iam_of r = Some iam
                 \<and> (\<forall>r'\<in>set post. iam_of r' \<noteq> Some iam)
                 \<and> a = AddressFromUDP (src r))"
    then obtain pre r post where rng: "in_requested_range data iam"
      and fr: "frames = pre @ r # post" and ri: "iam_of r = Some iam"
      and po: "\<forall>r'\<in>set post. iam_of r' \<noteq> Some iam"
      and a: "a = AddressFromUDP (src r)"
      by blast
    from last [OF fr ri po rng] a have "map_of seen iam = Some a" by simp
    then show "(iam, a) \<in> set seen" by (rule map_of_SomeD)
  qed
qed

lemma Device_of_distinct:
  "distinct (map fst seen) \<Longrightarrow> distinct (map (\<lambda>(iam, addr). Device_of iam addr) seen)"
proof -
  assume d: "distinct (map fst seen)"
  then have "distinct seen" by (rule distinct_map [THEN iffD1, THEN conjunct1])
  moreover have "inj_on (\<lambda>(iam, addr). Device_of iam addr) (set seen)"
    by (auto simp: inj_on_def Device_of_inject)
  ultimately show ?thesis by (simp add: distinct_map)
qed

subsection \<open>The example frames\<close>

lemma AddressFromUDP_example_src:
  "AddressFromUDP example_src = \<lparr>Mac = [4, 192, 0, 2, 5, 0xBA, 0xC0], Net = 0, Adr = []\<rparr>"
  by (simp add: example_src_def AddressFromUDP_def IPv4len_def To4_def BigEndian_PutUint16_def)

lemma iam_of_IAm_frame: "iam_of (IAm_frame source (PayloadIam iam) udp) = Some iam"
  by (simp add: iam_of_def IAm_frame_def)

lemma src_IAm_frame: "src (IAm_frame source payload udp) = udp"
  by (simp add: IAm_frame_def)

lemma not_bad_IAm_frame: "\<not> iam_without_Iam_payload (IAm_frame source (PayloadIam iam) udp)"
  by (simp add: iam_without_Iam_payload_def IAm_frame_def)

lemma bad_IAm_frame: "iam_without_Iam_payload (IAm_frame source (PayloadWhoIs w) udp)"
  by (simp add: iam_without_Iam_payload_def IAm_frame_def)

subsection \<open>The range filter\<close>

text \<open>
  Claim C7. When \<open>WhoIs\<close> returns its devices, an announcement received in an IAm
  frame is among them in every case where no range was supplied (a bound of the request
  is nil); where a range \<open>[low, high]\<close> was supplied it is among them if and only if its
  instance lies in the range, bounds included. So an announcement outside the range is
  left out exactly when a range was supplied.
\<close>

theorem WhoIs_range_filter:
  assumes "Client_WhoIs b data frames = Inr devices"
    and "r \<in> set frames" and "iam_of r = Some iam"
  shows "(Low data = None \<or> High data = None \<longrightarrow> (\<exists>addr. Device_of iam addr \<in> set devices))
       \<and> (\<forall>lo hi. Low data = Some lo \<and> High data = Some hi \<longrightarrow>
            ((\<exists>addr. Device_of iam addr \<in> set devices)
               \<longleftrightarrow> lo \<le> Instance (ObjectID iam) \<and> Instance (ObjectID iam) \<le> hi))"
proof -
  have "(\<exists>addr. Device_of iam addr \<in> set devices) \<longleftrightarrow> in_requested_range data iam"
    using WhoIs_kept_iff [OF assms(1), of iam] assms(2,3) by auto
  then show ?thesis
    by (auto simp: in_requested_range_iff)
qed

theorem WhoIs_range_filter_witness:
  "Client_WhoIs (Inr 0) \<lparr>Low = Some 100, High = Some 200\<rparr>
          [IAm_frame None (PayloadIam (example_Iam 50)) example_src,
           IAm_frame None (PayloadIam (example_Iam 150)) example_src]
      = Inr [Device_of (example_Iam 150) \<lparr>Mac = [4, 192, 0, 2, 5, 0xBA, 0xC0], Net = 0, Adr = []\<rparr>]
   \<and> IAm_frame None (PayloadIam (example_Iam 50)) example_src
        \<in> set [IAm_frame None (PayloadIam (example_Iam 50)) example_src,
                IAm_frame None (PayloadIam (example_Iam 150)) example_src]
   \<and> iam_of (IAm_frame None (PayloadIam (example_Iam 50)) example_src) = Some (example_Iam 50)
   \<and> \<not> (\<exists>addr. Device_of (example_Iam 50) addr
              \<in> set [Device_of (example_Iam 150)
                        \<lparr>Mac = [4, 192, 0, 2, 5, 0xBA, 0xC0], Net = 0, Adr = []\<rparr>])"
proof -
  let ?f50 = "IAm_frame None (PayloadIam (example_Iam 50)) example_src"
  let ?f150 = "IAm_frame None (PayloadIam (example_Iam 150)) example_src"
  let ?ds = "[Device_of (example_Iam 150)
                \<lparr>Mac = [4, 192, 0, 2, 5, 0xBA, 0xC0], Net = 0, Adr = []\<rparr>]"
  have run: "Client_WhoIs (Inr 0) \<lparr>Low = Some 100, High = Some 200\<rparr> [?f50, ?f150] = Inr ?ds"
    by (simp add: Client_WhoIs_def WhoIs_receive_cases iam_of_IAm_frame src_IAm_frame
        not_bad_IAm_frame in_requested_range_def example_Iam_def AddressFromUDP_example_src)
  have mem: "?f50 \<in> set [?f50, ?f150]" by simp
  have iam: "iam_of ?f50 = Some (example_Iam 50)" by (rule iam_of_IAm_frame)
  have "\<not> (\<exists>addr. Device_of (example_Iam 50) addr \<in> set ?ds)"
    using WhoIs_range_filter [OF run mem iam] by (simp add: example_Iam_def)
  with run mem iam show ?thesis by blast
qed

subsection \<open>Errors of discovery\<close>

text \<open>
  Claim C8, as stated: \<open>WhoIs\<close> never returns an error. It returns the error of the
  broadcast when the broadcast fails, and the error "unexpected payload type" when a frame
  classified (unconfirmed-request, i-am) carries a payload that is not an \<open>Iam\<close>.
\<close>

theorem WhoIs_returns_errors:
  "Client_WhoIs (Inl TransportError) \<lparr>Low = None, High = None\<rparr>
       [IAm_frame None (PayloadIam (example_Iam 1234)) example_src] = Inl TransportError
   \<and> Client_WhoIs (Inr 0) \<lparr>Low = None, High = None\<rparr>
       [IAm_frame None (PayloadWhoIs \<lparr>Low = None, High = None\<rparr>) example_src]
       = Inl UnexpectedPayloadType"
  by (simp add: Client_WhoIs_def WhoIs_receive_cases bad_IAm_frame)

text \<open>
  Claim C8, amended: \<open>WhoIs\<close> returns an error in exactly two cases. When the broadcast
  fails, it returns the error of the broadcast. When the broadcast succeeds and a received
  frame classified (unconfirmed-request, i-am) carries a payload that is not an \<open>Iam\<close>, it
  returns the error "unexpected payload type". In every other case, for every range and
  every sequence of received frames, it returns without error the devices collected when
  the deadline expires: each device once, and exactly one device for each announcement
  received that passes the range test, with the address of the UDP source of the last
  frame that carried the announcement.
\<close>

theorem WhoIs_result_or_error:
  "(\<forall>err. b = Inl err \<longrightarrow> Client_WhoIs b data frames = Inl err)
   \<and> ((\<exists>n. b = Inr n) \<and> (\<exists>r\<in>set frames. iam_without_Iam_payload r)
        \<longrightarrow> Client_WhoIs b data frames = Inl UnexpectedPayloadType)
   \<and> ((\<exists>n. b = Inr n) \<and> (\<forall>r\<in>set frames. \<not> iam_without_Iam_payload r)
        \<longrightarrow> (\<exists>devices. Client_WhoIs b data frames = Inr devices
              \<and> distinct devices
              \<and> (\<forall>d. d \<in> set devices \<longleftrightarrow>
                    (\<exists>pre r post iam.
                        frames = pre @ r # post \<and> iam_of r = Some iam
                        \<and> in_requested_range data iam
                        \<and> (\<forall>r'\<in>set post. iam_of r' \<noteq> Some iam)
                        \<and> d = Device_of iam (AddressFromUDP (src r))))))"
proof (intro conjI allI impI)
  fix err assume "b = Inl err"
  then show "Client_WhoIs b data frames = Inl err" by (simp add: Client_WhoIs_def)
next
  assume a: "(\<exists>n. b = Inr n) \<and> (\<exists>r\<in>set frames. iam_without_Iam_payload r)"
  then obtain err where e: "WhoIs_loop data frames [] = Inl err"
    using WhoIs_loop_error_iff [of data frames "[]"] by blast
  then have "err = UnexpectedPayloadType" by (rule WhoIs_loop_error_kind)
  with a e show "Client_WhoIs b data frames = Inl UnexpectedPayloadType"
    by (auto simp: Client_WhoIs_def)
next
  assume a: "(\<exists>n. b = Inr n) \<and> (\<forall>r\<in>set frames. \<not> iam_without_Iam_payload r)"
  then have "\<not> (\<exists>err. WhoIs_loop data frames [] = Inl err)"
    by (simp add: WhoIs_loop_error_iff)
  then obtain seen where l: "WhoIs_loop data frames [] = Inr seen"
    by (cases "WhoIs_loop data frames []") auto
  let ?ds = "map (\<lambda>(iam, addr). Device_of iam addr) seen"
  from a l have run: "Client_WhoIs b data frames = Inr ?ds"
    by (auto simp: Client_WhoIs_def)
  have dist: "distinct ?ds"
    using WhoIs_loop_distinct [OF l] by (simp add: Device_of_distinct)
  have mem: "d \<in> set ?ds \<longleftrightarrow>
               (\<exists>pre r post iam.
                  frames = pre @ r # post \<and> iam_of r = Some iam
                  \<and> in_requested_range data iam
                  \<and> (\<forall>r'\<in>set post. iam_of r' \<noteq> Some iam)
                  \<and> d = Device_of iam (AddressFromUDP (src r)))" for d
  proof
    assume "d \<in> set ?ds"
    then obtain iam a where m: "(iam, a) \<in> set seen" and d: "d = Device_of iam a" by auto
    from m WhoIs_collected [OF l, of iam a] d
    show "\<exists>pre r post iam.
                  frames = pre @ r # post \<and> iam_of r = Some iam
                  \<and> in_requested_range data iam
                  \<and> (\<forall>r'\<in>set post. iam_of r' \<noteq> Some iam)
                  \<and> d = Device_of iam (AddressFromUDP (src r))"
      by blast
  next
    assume "\<exists>pre r post iam.
                  frames = pre @ r # post \<and> iam_of r = Some iam
                  \<and> in_requested_range data iam
                  \<and> (\<forall>r'\<in>set post. iam_of r' \<noteq> Some iam)
                  \<and> d = Device_of iam (AddressFromUDP (src r))"
    then obtain pre r post iam where fr: "frames = pre @ r # post" and ri: "iam_of r = Some iam"
      and rng: "in_requested_range data iam"
      and po: "\<forall>r'\<in>set post. iam_of r' \<noteq> Some iam"
      and d: "d = Device_of iam (AddressFromUDP (src r))"
      by blast
    from fr ri rng po have "(iam, AddressFromUDP (src r)) \<in> set seen"
      using WhoIs_collected [OF l, of iam "AddressFromUDP (src r)"] by blast
    with d show "d \<in> set ?ds"
      using Device_of_mem [of iam "AddressFromUDP (src r)" seen] by simp
  qed
  from run dist mem
  show "\<exists>devices. Client_WhoIs b data frames = Inr devices
              \<and> distinct devices
              \<and> (\<forall>d. d \<in> set devices \<longleftrightarrow>
                    (\<exists>pre r post iam.
                        frames = pre @ r # post \<and> iam_of r = Some iam
                        \<and> in_requested_range data iam
                        \<and> (\<forall>r'\<in>set post. iam_of r' \<noteq> Some iam)
                        \<and> d = Device_of iam (AddressFromUDP (src r))))"
    by blast
qed

theorem WhoIs_result_or_error_witness:
  "Client_WhoIs (Inl TransportError) \<lparr>Low = None, High = None\<rparr>
       [IAm_frame None (PayloadIam (example_Iam 1234)) example_src] = Inl TransportError
   \<and> (\<exists>n. (Inr 0 :: error + int) = Inr n)
   \<and> iam_without_Iam_payload
         (IAm_frame None (PayloadWhoIs \<lparr>Low = None, High = None\<rparr>) example_src)
   \<and> Client_WhoIs (Inr 0) \<lparr>Low = None, High = None\<rparr>
       [IAm_frame None (PayloadWhoIs \<lparr>Low = None, High = None\<rparr>) example_src]
       = Inl UnexpectedPayloadType
   \<and> \<not> iam_without_Iam_payload (IAm_frame None (PayloadIam (example_Iam 1234)) example_src)
   \<and> (\<exists>devices. Client_WhoIs (Inr 0) \<lparr>Low = None, High = None\<rparr>
                     [IAm_frame None (PayloadIam (example_Iam 1234)) example_src] = Inr devices
          \<and> distinct devices
          \<and> Device_of (example_Iam 1234) (AddressFromUDP example_src) \<in> set devices)"
proof -
  let ?w = "\<lparr>Low = None, High = None\<rparr>"
  let ?f = "IAm_frame None (PayloadIam (example_Iam 1234)) example_src"
  let ?g = "IAm_frame None (PayloadWhoIs \<lparr>Low = None, High = None\<rparr>) example_src"
  have e1: "Client_WhoIs (Inl TransportError) ?w [?f] = Inl TransportError"
    using WhoIs_result_or_error [of "Inl TransportError" ?w "[?f]"] by simp
  have n: "\<exists>n. (Inr 0 :: error + int) = Inr n" by simp
  have bad: "iam_without_Iam_payload ?g" by (rule bad_IAm_frame)
  have e2: "Client_WhoIs (Inr 0) ?w [?g] = Inl UnexpectedPayloadType"
    using WhoIs_result_or_error [of "Inr 0" ?w "[?g]"] bad by simp
  have good: "\<not> iam_without_Iam_payload ?f" by (rule not_bad_IAm_frame)
  from WhoIs_result_or_error [of "Inr 0" ?w "[?f]"] good
  obtain devices where run: "Client_WhoIs (Inr 0) ?w [?f] = Inr devices"
    and dist: "distinct devices"
    and mem: "\<And>d. d \<in> set devices \<longleftrightarrow>
                (\<exists>pre r post iam.
                    [?f] = pre @ r # post \<and> iam_of r = Some iam
                    \<and> in_requested_range ?w iam
                    \<and> (\<forall>r'\<in>set post. iam_of r' \<noteq> Some iam)
                    \<and> d = Device_of iam (AddressFromUDP (src r)))"
    by auto
  have "[?f] = [] @ ?f # [] \<and> iam_of ?f = Some (example_Iam 1234)
          \<and> in_requested_range ?w (example_Iam 1234)
          \<and> (\<forall>r'\<in>set []. iam_of r' \<noteq> Some (example_Iam 1234))
          \<and> Device_of (example_Iam 1234) (AddressFromUDP example_src)
               = Device_of (example_Iam 1234) (AddressFromUDP (src ?f))"
    by (simp add: iam_of_IAm_frame src_IAm_frame in_requested_range_def)
  then have "Device_of (example_Iam 1234) (AddressFromUDP example_src) \<in> set devices"
    unfolding mem by blast
  with e1 n bad e2 good run dist show ?thesis by blast
qed

text \<open>The errors that \<open>WhoIs\<close> returns are these two and no other.\<close>

lemma WhoIs_error_kinds:
  "Client_WhoIs b data frames = Inl err \<Longrightarrow> b = Inl err \<or> err = UnexpectedPayloadType"
  by (auto simp: Client_WhoIs_def split: sum.splits dest: WhoIs_loop_error_kind)

subsection \<open>The address of a discovered device\<close>

text \<open>
  Claim C9, as stated: the address recorded for an IAm frame with an NPDU source
  specifier is derived from the specifier. An announcement received from
  \<open>192.0.2.5:47808\<close> with the source specifier (network 5, MAC of \<open>198.51.100.7\<close>) is
  recorded with the address of the UDP source, on the local network.
\<close>

theorem WhoIs_ignores_source_specifier:
  "Source (NPDU (bvlc (IAm_frame
        (Some \<lparr>Mac = [4, 198, 51, 100, 7, 0xBA, 0xC0], Net = 5, Adr = [17]\<rparr>)
        (PayloadIam (example_Iam 1234)) example_src)))
     = Some \<lparr>Mac = [4, 198, 51, 100, 7, 0xBA, 0xC0], Net = 5, Adr = [17]\<rparr>
   \<and> Client_WhoIs (Inr 0) \<lparr>Low = None, High = None\<rparr>
       [IAm_frame (Some \<lparr>Mac = [4, 198, 51, 100, 7, 0xBA, 0xC0], Net = 5, Adr = [17]\<rparr>)
          (PayloadIam (example_Iam 1234)) example_src]
     = Inr [Device_of (example_Iam 1234)
              \<lparr>Mac = [4, 192, 0, 2, 5, 0xBA, 0xC0], Net = 0, Adr = []\<rparr>]
   \<and> Addr (Device_of (example_Iam 1234)
              \<lparr>Mac = [4, 192, 0, 2, 5, 0xBA, 0xC0], Net = 0, Adr = []\<rparr>)
        \<noteq> \<lparr>Mac = [4, 198, 51, 100, 7, 0xBA, 0xC0], Net = 5, Adr = [17]\<rparr>"
  by (simp add: Client_WhoIs_def WhoIs_receive_cases iam_of_IAm_frame src_IAm_frame
        not_bad_IAm_frame in_requested_range_def AddressFromUDP_example_src)
     (simp add: IAm_frame_def Device_of_def)

text \<open>
  Claim C9, amended: the address recorded for every device that \<open>WhoIs\<close> returns is
  \<open>AddressFromUDP\<close> of the UDP source of the last received IAm frame that carries the
  device's announcement, whether or not the frame has an NPDU source specifier.
\<close>

theorem WhoIs_address_from_UDP_source:
  assumes "Client_WhoIs b data frames = Inr devices" and "d \<in> set devices"
  shows "\<exists>pre r post iam.
           frames = pre @ r # post \<and> iam_of r = Some iam
           \<and> (\<forall>r'\<in>set post. iam_of r' \<noteq> Some iam)
           \<and> d = Device_of iam (AddressFromUDP (src r))"
proof -
  from assms(1) obtain seen where l: "WhoIs_loop data frames [] = Inr seen"
    and ds: "devices = map (\<lambda>(iam, addr). Device_of iam addr) seen"
    by (auto simp: Client_WhoIs_Inr)
  from assms(2) ds obtain iam a where mem: "(iam, a) \<in> set seen" and d: "d = Device_of iam a"
    by auto
  from mem have "iam \<in> fst ` set seen" by force
  with WhoIs_loop_keys [OF l] have rng: "in_requested_range data iam"
    and ex: "\<exists>r\<in>set frames. iam_of r = Some iam"
    by auto
  from split_list_last_prop [OF ex] obtain pre r post where
    fr: "frames = pre @ r # post" and ri: "iam_of r = Some iam"
    and po: "\<forall>r'\<in>set post. iam_of r' \<noteq> Some iam"
    by blast
  from l fr obtain s1 where "WhoIs_loop data (r # post) s1 = Inr seen"
    by (auto simp: WhoIs_loop_append split: sum.splits)
  then obtain s2 where rc: "WhoIs_receive data r s1 = Inr s2"
    and lp: "WhoIs_loop data post s2 = Inr seen"
    by (auto split: sum.splits)
  from rc ri rng have "s2 = AList.update iam (AddressFromUDP (src r)) s1"
    by (simp add: WhoIs_receive_cases iam_of_not_bad)
  then have "map_of s2 iam = Some (AddressFromUDP (src r))"
    by (simp add: update_conv')
  with WhoIs_loop_untouched [OF lp po] have "map_of seen iam = Some (AddressFromUDP (src r))"
    by simp
  moreover have "distinct (map fst seen)"
    using WhoIs_loop_distinct [OF l] by simp
  ultimately have "a = AddressFromUDP (src r)"
    using mem by simp
  with d fr ri po show ?thesis by blast
qed

theorem WhoIs_address_from_UDP_source_witness:
  "Client_WhoIs (Inr 0) \<lparr>Low = None, High = None\<rparr>
       [IAm_frame (Some \<lparr>Mac = [4, 198, 51, 100, 7, 0xBA, 0xC0], Net = 5, Adr = [17]\<rparr>)
          (PayloadIam (example_Iam 1234)) example_src]
     = Inr [Device_of (example_Iam 1234) (AddressFromUDP example_src)]
   \<and> Device_of (example_Iam 1234) (AddressFromUDP example_src)
        \<in> set [Device_of (example_Iam 1234) (AddressFromUDP example_src)]
   \<and> (\<exists>iam.
         iam_of (IAm_frame (Some \<lparr>Mac = [4, 198, 51, 100, 7, 0xBA, 0xC0], Net = 5, Adr = [17]\<rparr>)
                   (PayloadIam (example_Iam 1234)) example_src) = Some iam
         \<and> Device_of (example_Iam 1234) (AddressFromUDP example_src)
              = Device_of iam (AddressFromUDP (src (IAm_frame
                  (Some \<lparr>Mac = [4, 198, 51, 100, 7, 0xBA, 0xC0], Net = 5, Adr = [17]\<rparr>)
                  (PayloadIam (example_Iam 1234)) example_src))))"
proof -
  let ?f = "IAm_frame (Some \<lparr>Mac = [4, 198, 51, 100, 7, 0xBA, 0xC0], Net = 5, Adr = [17]\<rparr>)
              (PayloadIam (example_Iam 1234)) example_src"
  let ?d = "Device_of (example_Iam 1234) (AddressFromUDP example_src)"
  have run: "Client_WhoIs (Inr 0) \<lparr>Low = None, High = None\<rparr> [?f] = Inr [?d]"
    by (simp add: Client_WhoIs_def WhoIs_receive_cases iam_of_IAm_frame src_IAm_frame
        not_bad_IAm_frame in_requested_range_def)
  have mem: "?d \<in> set [?d]" by simp
  from WhoIs_address_from_UDP_source [OF run mem] obtain pre r post iam where
    fr: "[?f] = pre @ r # post" and ri: "iam_of r = Some iam"
    and d: "?d = Device_of iam (AddressFromUDP (src r))"
    by blast
  from fr have "r = ?f" by (cases pre) simp_all
  with ri d have "\<exists>iam. iam_of ?f = Some iam \<and> ?d = Device_of iam (AddressFromUDP (src ?f))"
    by blast
  with run mem show ?thesis by blast
qed

text \<open>
  The source specifier is not read: replacing it in every received frame changes nothing
  of what \<open>WhoIs\<close> returns.
\<close>

lemma WhoIs_receive_Source:
  "WhoIs_receive data (r\<lparr>bvlc := (bvlc r)\<lparr>NPDU := (NPDU (bvlc r))\<lparr>Source := s\<rparr>\<rparr>\<rparr>) seen
     = WhoIs_receive data r seen"
  by (simp add: WhoIs_receive_def split: option.splits Payload.splits)

lemma WhoIs_loop_Source:
  "WhoIs_loop data
      (map (\<lambda>r. r\<lparr>bvlc := (bvlc r)\<lparr>NPDU := (NPDU (bvlc r))\<lparr>Source := f r\<rparr>\<rparr>\<rparr>) frames) seen
     = WhoIs_loop data frames seen"
  by (induction frames arbitrary: seen) (simp_all add: WhoIs_receive_Source split: sum.splits)

lemma Client_WhoIs_Source:
  "Client_WhoIs b data
      (map (\<lambda>r. r\<lparr>bvlc := (bvlc r)\<lparr>NPDU := (NPDU (bvlc r))\<lparr>Source := f r\<rparr>\<rparr>\<rparr>) frames)
     = Client_WhoIs b data frames"
  by (simp add: Client_WhoIs_def WhoIs_loop_Source split: sum.splits)

section \<open>Reading a property\<close>

text \<open>
  A reply whose payload is of the dynamic type that its classification announces: if its
  data-type is Error, the call returns the protocol error (error-class, error-code) that
  the payload carries; if its data-type is ComplexAck and its service is read-property, the
  call returns the decoded value of the payload; on every other classification the call
  returns the error "invalid answer", whatever the payload.
\<close>

lemma ReadProperty_reply:
  "(DataType apdu = Error \<longrightarrow> Payload apdu = PayloadApduError e
      \<longrightarrow> Client_ReadProperty (Inr n) (Reply apdu) = Inl (ProtocolError e))
   \<and> (DataType apdu = ComplexAck \<and> ServiceType apdu = ServiceConfirmedReadProperty
      \<longrightarrow> Payload apdu = PayloadReadProperty rp
      \<longrightarrow> Client_ReadProperty (Inr n) (Reply apdu) = Inr (Data rp))
   \<and> (DataType apdu \<noteq> Error
      \<and> \<not> (DataType apdu = ComplexAck \<and> ServiceType apdu = ServiceConfirmedReadProperty)
      \<longrightarrow> Client_ReadProperty (Inr n) (Reply apdu) = Inl (errorString ''invalid answer''))"
  by (simp add: Client_ReadProperty_def)

lemma ReadProperty_reply_examples:
  "Client_ReadProperty (Inr 17)
      (Reply \<lparr>DataType = Error, ServiceType = ServiceConfirmedReadProperty, InvokeID = 1,
              Payload = PayloadApduError \<lparr>Class = 1, Code = 31\<rparr>\<rparr>)
     = (Inl (ProtocolError \<lparr>Class = 1, Code = 31\<rparr>) :: error + nat)
   \<and> Client_ReadProperty (Inr 17)
      (Reply \<lparr>DataType = ComplexAck, ServiceType = ServiceConfirmedReadProperty, InvokeID = 1,
              Payload = PayloadReadProperty \<lparr>Data = 235\<rparr>\<rparr>)
     = Inr (235 :: nat)
   \<and> Client_ReadProperty (Inr 17)
      (Reply \<lparr>DataType = SimpleAck, ServiceType = ServiceConfirmedReadProperty, InvokeID = 1,
              Payload = NoPayload\<rparr>)
     = (Inl (errorString ''invalid answer'') :: error + nat)"
  using
    ReadProperty_reply [of "\<lparr>DataType = Error, ServiceType = ServiceConfirmedReadProperty,
        InvokeID = 1, Payload = PayloadApduError \<lparr>Class = 1, Code = 31\<rparr>\<rparr> :: nat APDU"
        "\<lparr>Class = 1, Code = 31\<rparr>" 17 "\<lparr>Data = 235\<rparr>"]
    ReadProperty_reply [of "\<lparr>DataType = ComplexAck, ServiceType = ServiceConfirmedReadProperty,
        InvokeID = 1, Payload = PayloadReadProperty \<lparr>Data = 235 :: nat\<rparr>\<rparr>"
        "\<lparr>Class = 1, Code = 31\<rparr>" 17 "\<lparr>Data = 235\<rparr>"]
    ReadProperty_reply [of "\<lparr>DataType = SimpleAck, ServiceType = ServiceConfirmedReadProperty,
        InvokeID = 1, Payload = NoPayload\<rparr> :: nat APDU"
        "\<lparr>Class = 1, Code = 31\<rparr>" 17 "\<lparr>Data = 235\<rparr>"]
  by simp

text \<open>
  Claim C6. For every reply APDU delivered to a pending \<open>ReadProperty\<close> call, the call is
  to return: the typed protocol error when the data-type is Error, the decoded value when
  the data-type is ComplexAck with service read-property, and an invalid-reply error on any
  other classification. The two type assertions \<open>apdu.Payload.(*ApduError)\<close> and
  \<open>apdu.Payload.(*ReadProperty)\<close> are unchecked, where \<open>WhoIs\<close> checks its own with
  \<open>ok\<close>, and the source marks them "Todo: ensure response validity, ensure conversion
  cannot panic": on a reply classified Error, or ComplexAck with service read-property,
  whose payload is nil, the call does not return at all, it panics.
\<close>

theorem ReadProperty_mismatched_payload:
  "Client_ReadProperty (Inr 17)
      (Reply \<lparr>DataType = Error, ServiceType = ServiceConfirmedReadProperty, InvokeID = 1,
              Payload = NoPayload\<rparr>)
     = (Inl TypeAssertionPanic :: error + nat)
   \<and> Client_ReadProperty (Inr 17)
      (Reply \<lparr>DataType = ComplexAck, ServiceType = ServiceConfirmedReadProperty, InvokeID = 1,
              Payload = NoPayload\<rparr>)
     = (Inl TypeAssertionPanic :: error + nat)"
  by (simp add: Client_ReadProperty_def)

text \<open>
  Before a reply arrives, an error of \<open>send\<close> or the end of the context ends the call.
\<close>

lemma ReadProperty_no_reply:
  "Client_ReadProperty (Inl err) ev = Inl err"
  "Client_ReadProperty (Inr n) Done = Inl ContextError"
  by (simp_all add: Client_ReadProperty_def)

end
